theory Spec2Isabelle
  imports Main "HOL-Library.AList" "HOL-Library.Char_ord" "HOL-Library.List_Lexorder"
begin

section \<open>Python values and errors\<close>

text \<open>
  Exceptions of the source are values of type \<open>error\<close>; a function that may raise returns
  \<open>error + 'a\<close>, with \<open>Inl\<close> for the exception.
\<close>

datatype error =
  ValueError | KeyError | IndexError | TypeError | FileNotFoundError | UnboundLocalError

text \<open>
  A dict is an association list with distinct keys, in insertion order.
  \<open>d[k]\<close> raises KeyError on a missing key; \<open>d[k] = v\<close> is \<open>AList.update\<close>;
  \<open>k in d\<close> is \<open>map_of d k \<noteq> None\<close>.
\<close>

definition getitem :: "('k \<times> 'v) list \<Rightarrow> 'k \<Rightarrow> error + 'v" where
  "getitem d k = (case map_of d k of None \<Rightarrow> Inl KeyError | Some v \<Rightarrow> Inr v)"

text \<open>\<open>max(xs)\<close> raises ValueError on an empty sequence.\<close>

fun py_max :: "int list \<Rightarrow> error + int" where
  "py_max [] = Inl ValueError"
| "py_max (x # xs) = Inr (fold max xs x)"

section \<open>The string table (class TLK)\<close>

text \<open>
  An entry \<open>{'id': i, 'text': s}\<close> is the pair \<open>(i, s)\<close>. The dict \<open>values\<close> has the two
  keys \<open>language\<close> and \<open>entries\<close>, which are the first two fields of the record;
  \<open>existing\<close> is the cache from text to id, \<open>blanks\<close> the set of free ids.
\<close>

type_synonym entry = "int \<times> string"

datatype json = JInt int | JList "entry list"

record TLK =
  language :: json
  entries :: "entry list"
  existing :: "(string \<times> int) list"
  blanks :: "int set"

definition OFFSET :: int where
  "OFFSET = 16777216"

definition init_TLK :: TLK where
  "init_TLK = \<lparr>language = JInt 0, entries = [], existing = [], blanks = {}\<rparr>"

definition len :: "TLK \<Rightarrow> int" where
  "len t = int (length (entries t))"

definition add_item :: "int \<Rightarrow> string \<Rightarrow> TLK \<Rightarrow> TLK" where
  "add_item i text t =
     t\<lparr>existing := AList.update text (i + OFFSET) (existing t),
       entries := entries t @ [(i, text)]\<rparr>"

text \<open>
  \<open>set.pop()\<close> removes and returns an arbitrary element. The element it returns is the
  parameter \<open>pop\<close>, a function of the set; properties of \<open>add\<close> are stated for every
  \<open>pop\<close>.
\<close>

definition add :: "(int set \<Rightarrow> int) \<Rightarrow> string \<Rightarrow> TLK \<Rightarrow> error + TLK \<times> int" where
  "add pop text t =
     (if map_of (existing t) text \<noteq> None then
        (case getitem (existing t) text of Inl e \<Rightarrow> Inl e | Inr r \<Rightarrow> Inr (t, r))
      else
        let (i, t1) = (if blanks t \<noteq> {}
                       then (pop (blanks t), t\<lparr>blanks := blanks t - {pop (blanks t)}\<rparr>)
                       else (len t, t));
            t2 = add_item i text t1
        in (case getitem (existing t2) text of Inl e \<Rightarrow> Inl e | Inr r \<Rightarrow> Inr (t2, r)))"

definition add_id :: "int \<Rightarrow> string \<Rightarrow> TLK \<Rightarrow> error + TLK \<times> int" where
  "add_id i text t =
     (case (if length (existing t) > 0
            then (case py_max (map snd (existing t)) of
                    Inl e \<Rightarrow> Inl e | Inr m \<Rightarrow> Inr (m - OFFSET))
            else Inr 0) of
        Inl e \<Rightarrow> Inl e
      | Inr max_value \<Rightarrow>
          if max_value \<noteq> 0 \<and> i \<le> max_value then Inl ValueError
          else
            let t1 = add_item i text t;
                t2 = t1\<lparr>blanks := blanks t1 \<union> {max_value + 1 ..< i}\<rparr>
            in (case getitem (existing t2) text of Inl e \<Rightarrow> Inl e | Inr r \<Rightarrow> Inr (t2, r)))"

subsection \<open>Serialization\<close>

text \<open>
  \<open>to_tlk\<close> sorts the entries by id in place (Python's sort is stable) and dumps
  \<open>values\<close> as a JSON object; the model returns the updated table and that object.
  The conversion of the object by the external encoder is not modelled.
\<close>

definition to_tlk :: "TLK \<Rightarrow> TLK \<times> (string \<times> json) list" where
  "to_tlk t =
     (let t1 = t\<lparr>entries := sort_key fst (entries t)\<rparr>
      in (t1, [(''language'', language t1), (''entries'', JList (entries t1))]))"

text \<open>
  \<open>from_json\<close> reads a JSON object: \<open>None\<close> is a path that is no \<open>.json\<close> file,
  \<open>Some values\<close> the decoded object. The source tests the negated condition
  (\<open>len(values.keys()) != 2 or not (...)\<close>) and raises in the first branch; here the
  branches are written in the other order.
\<close>

definition from_json :: "(string \<times> json) list option \<Rightarrow> error + TLK" where
  "from_json file =
     (case file of
        None \<Rightarrow> Inl FileNotFoundError
      | Some vals \<Rightarrow>
          if length vals = 2 \<and> map_of vals ''language'' \<noteq> None \<and> map_of vals ''entries'' \<noteq> None
          then
            (case (getitem vals ''language'', getitem vals ''entries'') of
               (Inr l, Inr (JList es)) \<Rightarrow>
                 let ex = fold (\<lambda>(i, text) d. AList.update text i d) es []
                 in (case py_max (map snd ex) of
                       Inl e \<Rightarrow> Inl e
                     | Inr m \<Rightarrow>
                         Inr \<lparr>language = l, entries = es, existing = ex,
                              blanks = Set.filter (\<lambda>i. i \<notin> set (map snd ex)) {0 ..< m}\<rparr>)
             | (Inr l, Inr (JInt n)) \<Rightarrow> Inl TypeError
             | (Inl e, _) \<Rightarrow> Inl e
             | (_, Inl e) \<Rightarrow> Inl e)
          else Inl ValueError)"

section \<open>Derived labels\<close>

text \<open>
  The patterns of a \<open>match\<close> statement on a string subject. \<open>case 'fe'\<close> is a literal
  pattern; \<open>case 'ch', 'is', 'sh'\<close> is a sequence pattern of three literals, and a sequence
  pattern does not match a subject of type \<open>str\<close>.
\<close>

datatype pattern = Lit string | Seq "pattern list"

fun matches :: "pattern \<Rightarrow> string \<Rightarrow> bool" where
  "matches (Lit s) subject = (subject = s)"
| "matches (Seq ps) subject = False"

text \<open>
  \<open>text[-2:]\<close> is \<open>drop (length text - 2) text\<close>, \<open>text[:-2]\<close> is
  \<open>take (length text - 2) text\<close>, \<open>text[:-1]\<close> is \<open>butlast text\<close>; \<open>text[-1]\<close> and
  \<open>text[-2]\<close> raise IndexError when the string is too short.
\<close>

definition dynamic_plural :: "string \<Rightarrow> error + string" where
  "dynamic_plural text =
     (let s2 = drop (length text - 2) text in
      if matches (Seq [Lit ''ch'', Lit ''is'', Lit ''sh'']) s2 then Inr (text @ ''es'')
      else if matches (Lit ''fe'') s2 then Inr (take (length text - 2) text @ ''ves'')
      else if matches (Lit ''lf'') s2 then Inr (butlast text @ ''ves'')
      else if text = [] then Inl IndexError
      else
        let s1 = [last text] in
        if matches (Seq [Lit ''s'', Lit ''x'', Lit ''z'', Lit ''o'']) s1 then Inr (text @ ''es'')
        else if matches (Lit ''f'') s1 then Inr (butlast text @ ''ves'')
        else if matches (Lit ''y'') s1 then
          (if length text < 2 then Inl IndexError
           else if text ! (length text - 2) \<notin> set ''aeiou'' then Inr (butlast text @ ''ies'')
           else Inr (text @ ''s''))
        else Inr (text @ ''s''))"

section \<open>Tabular datasets\<close>

text \<open>
  A pandas DataFrame is a list of row labels, a list of column names and the cells, a
  partial map from (row label, column name) to the value; \<open>None\<close> is the missing value
  (NaN). Row labels and column names are taken to be unique. \<open>at\<close> reads a cell of the
  frame and is missing outside of it.
\<close>

record 'a DataFrame =
  index :: "int list"
  columns :: "string list"
  cells :: "int \<times> string \<rightharpoonup> 'a"

definition at :: "'a DataFrame \<Rightarrow> int \<times> string \<Rightarrow> 'a option" where
  "at df p = (if fst p \<in> set (index df) \<and> snd p \<in> set (columns df) then cells df p else None)"

definition empty :: "'a DataFrame \<Rightarrow> bool" where
  "empty df = (index df = [] \<or> columns df = [])"

text \<open>A cell of a category table is text as read from the file, or a reference.\<close>

datatype val = Str string | Num int

text \<open>An arithmetic operation or conversion on every cell; a missing cell stays missing.\<close>

definition map_frame :: "('a \<Rightarrow> 'b) \<Rightarrow> 'a DataFrame \<Rightarrow> 'b DataFrame" where
  "map_frame h df =
     \<lparr>index = index df, columns = columns df, cells = (\<lambda>p. map_option h (cells df p))\<rparr>"

text \<open>
  \<open>self.update(other, overwrite=True)\<close>: \<open>other\<close> is reindexed to the rows of \<open>self\<close>, and
  in every column that both frames have, each cell of \<open>self\<close> takes the value of
  \<open>other\<close> where that value is not missing.
\<close>

definition update :: "'a DataFrame \<Rightarrow> 'a DataFrame \<Rightarrow> 'a DataFrame" where
  "update self other =
     self\<lparr>cells := (\<lambda>p. if fst p \<in> set (index self) \<and> snd p \<in> set (columns self)
                             \<and> at other p \<noteq> None
                          then at other p else cells self p)\<rparr>"

text \<open>
  \<open>Series.map(func, na_action='ignore')\<close> over the cells at the given positions, in that
  order, threading the string table through the calls of \<open>func\<close>: a missing cell is
  skipped and stays missing.
\<close>

fun map_cells ::
  "(string \<Rightarrow> TLK \<Rightarrow> error + TLK \<times> int) \<Rightarrow> (int \<times> string \<rightharpoonup> string) \<Rightarrow>
   (int \<times> string) list \<Rightarrow> TLK \<Rightarrow> error + TLK \<times> (int \<times> string \<rightharpoonup> int)" where
  "map_cells f src [] t = Inr (t, Map.empty)"
| "map_cells f src (p # ps) t =
     (case src p of
        None \<Rightarrow> map_cells f src ps t
      | Some x \<Rightarrow>
          (case f x t of
             Inl e \<Rightarrow> Inl e
           | Inr (t1, y) \<Rightarrow>
               (case map_cells f src ps t1 of
                  Inl e \<Rightarrow> Inl e
                | Inr (t2, g) \<Rightarrow> Inr (t2, g(p \<mapsto> y)))))"

text \<open>The cells of the given columns, column by column, each column in row order.\<close>

definition positions :: "string list \<Rightarrow> int list \<Rightarrow> (int \<times> string) list" where
  "positions cols rows = concat (map (\<lambda>c. map (\<lambda>r. (r, c)) rows) cols)"

section \<open>Reading override label files\<close>

text \<open>
  The file given to \<open>read_labels\<close>: no \<open>.json\<close> file at the path; a file that neither
  encoding decodes (\<open>df\<close> is then unbound); a table without an \<open>id\<close> column; or a table
  of records, each with its id (already an integer) and its other fields.
\<close>

datatype 'r label_file =
  No_File | Undecodable | No_Id_Column "'r list" | Records "(int \<times> 'r) list"

text \<open>\<open>df[~df.index.duplicated(keep='last')]\<close>: a row stays when no later row has its id.\<close>

fun keep_last :: "(int \<times> 'r) list \<Rightarrow> (int \<times> 'r) list" where
  "keep_last [] = []"
| "keep_last (x # xs) = (if fst x \<in> fst ` set xs then keep_last xs else x # keep_last xs)"

text \<open>
  \<open>df.index[df.index.duplicated()].tolist()\<close>, the ids the warning lists: the id of every
  row that has an earlier row with the same id.
\<close>

fun duplicated :: "int list \<Rightarrow> int list \<Rightarrow> int list" where
  "duplicated seen [] = []"
| "duplicated seen (i # is) =
     (if i \<in> set seen then i # duplicated seen is else duplicated (i # seen) is)"

text \<open>
  The result is the printed warning, if any (the ids it lists), and the rows of the frame
  with their ids. An empty table has no \<open>id\<close> column. \<open>sort_index\<close> returns the frame as
  it is when the ids are already ascending; otherwise it sorts with the library's default
  quicksort, which is not stable: the order it gives to rows with equal ids is not fixed, so
  the sorted rows are the result of the parameter \<open>quicksort\<close>, some rearrangement of the
  rows with ascending ids.
\<close>

definition read_labels ::
  "((int \<times> 'r) list \<Rightarrow> (int \<times> 'r) list) \<Rightarrow> 'r label_file \<Rightarrow> bool \<Rightarrow>
   error + int list option \<times> (int \<times> 'r) list" where
  "read_labels quicksort file silent_warnings =
     (case file of
        No_File \<Rightarrow> Inr (None, [])
      | Undecodable \<Rightarrow> Inl UnboundLocalError
      | No_Id_Column rs \<Rightarrow> Inl ValueError
      | Records rs \<Rightarrow>
          if rs = [] then Inl ValueError
          else
            let df = (if sorted (map fst rs) then rs else quicksort rs) in
            if \<not> silent_warnings \<and> \<not> distinct (map fst df)
            then Inr (Some (duplicated [] (map fst df)), keep_last df)
            else Inr (None, df))"

section \<open>The label merge\<close>

text \<open>
  The row labels of a frame are 64-bit signed integers, and arithmetic on them wraps
  around: \<open>int64 x\<close> is the value of \<open>x\<close> in that type.
\<close>

definition int64 :: "int \<Rightarrow> int" where
  "int64 x = (x + 2 ^ 63) mod 2 ^ 64 - 2 ^ 63"

text \<open>
  \<open>add_spell_labels\<close>. \<open>Index.difference\<close> returns the remaining column names sorted.
  The frame of static ids \<open>df_ids\<close> has the rows of \<open>df_json\<close>; its column \<open>column\<close>, the
  \<open>i\<close>-th static column, holds \<open>name_desc_offset + i + len(STATIC_COLUMNS) * row\<close>,
  computed on the 64-bit row labels (the product wraps, then the sum with the scalar
  \<open>name_desc_offset + i\<close>, which is taken to fit in 64 bits), where the override cell is
  not missing, and the (missing) override cell elsewhere.
  Reading a static column that \<open>df_json\<close> does not have raises KeyError.
  The sum \<open>df_ids + TLK.OFFSET\<close> is taken without wrap-around.
\<close>

definition STATIC_COLUMNS :: "int \<Rightarrow> string list" where
  "STATIC_COLUMNS name_desc_offset = (if name_desc_offset > 0 then [''Name'', ''SpellDesc''] else [])"

definition df_ids :: "int \<Rightarrow> string list \<Rightarrow> string DataFrame \<Rightarrow> int DataFrame" where
  "df_ids name_desc_offset static df_json =
     fold (\<lambda>(i, column) ids.
             ids\<lparr>columns := columns ids @ [column],
                 cells := (\<lambda>(r, c). if c = column
                             then (if cells df_json (r, column) \<noteq> None
                                   then Some (int64 (name_desc_offset + int i
                                                     + int64 (int (length static) * r)))
                                   else None)
                             else cells ids (r, c))\<rparr>)
          (enumerate 0 static)
          \<lparr>index = index df_json, columns = [], cells = Map.empty\<rparr>"

text \<open>
  The arguments of the \<open>add_id\<close> calls: for every row of \<open>df_ids\<close> in order and every static
  column in order, where the id is not missing, the id and the override text of that cell
  (which is not missing either, by the construction of \<open>df_ids\<close>).
\<close>

definition reservations ::
  "string list \<Rightarrow> int DataFrame \<Rightarrow> string DataFrame \<Rightarrow> (int \<times> string) list" where
  "reservations static ids df_json =
     concat (map (\<lambda>r. concat (map (\<lambda>column.
                     (case (cells ids (r, column), cells df_json (r, column)) of
                        (Some i, Some text) \<Rightarrow> [(i, text)]
                      | _ \<Rightarrow> [])) static)) (index ids))"

text \<open>\<open>all(self.add_id(...) for ...)\<close> stops at the first call that returns 0.\<close>

fun all_add_id :: "(int \<times> string) list \<Rightarrow> TLK \<Rightarrow> error + TLK" where
  "all_add_id [] t = Inr t"
| "all_add_id ((i, text) # rs) t =
     (case add_id i text t of
        Inl e \<Rightarrow> Inl e
      | Inr (t1, r) \<Rightarrow> if r = 0 then Inr t1 else all_add_id rs t1)"

definition add_spell_labels ::
  "(int set \<Rightarrow> int) \<Rightarrow> val DataFrame \<Rightarrow> string DataFrame \<Rightarrow> int \<Rightarrow> TLK \<Rightarrow>
   error + TLK \<times> val DataFrame" where
  "add_spell_labels pop df_2da df_json name_desc_offset t =
     (let static = STATIC_COLUMNS name_desc_offset;
          others = sort (filter (\<lambda>c. c \<notin> set static) (columns df_json))
      in case map_cells (add pop) (cells df_json) (positions others (index df_json)) t of
           Inl e \<Rightarrow> Inl e
         | Inr (t1, g) \<Rightarrow>
             let df_json1 = \<lparr>index = index df_json, columns = columns df_json,
                             cells = (\<lambda>p. if snd p \<in> set others then map_option Num (g p)
                                          else map_option Str (cells df_json p))\<rparr>;
                 df_2da1 = update df_2da df_json1
             in if static = [] then Inr (t1, df_2da1)
                else if \<not> (set static \<subseteq> set (columns df_json)) then Inl KeyError
                else
                  let ids = df_ids name_desc_offset static df_json
                  in (case all_add_id (reservations static ids df_json) t1 of
                        Inl e \<Rightarrow> Inl e
                      | Inr t2 \<Rightarrow>
                          Inr (t2, update df_2da1 (map_frame (\<lambda>i. Num (i + OFFSET)) ids))))"

text \<open>
  \<open>add_2da_labels\<close>, from the category table \<open>df_2da\<close> and the override table \<open>df_json\<close> as
  they are after loading and \<open>add_missing_labels\<close>. \<open>Index.intersection\<close> keeps the order
  of the override table's columns.
\<close>

definition add_2da_labels ::
  "(int set \<Rightarrow> int) \<Rightarrow> string \<Rightarrow> val DataFrame \<Rightarrow> string DataFrame \<Rightarrow> int \<Rightarrow> TLK \<Rightarrow>
   error + TLK \<times> val DataFrame" where
  "add_2da_labels pop name df_2da df_json0 spell_name_desc_offset t =
     (let df_json = df_json0\<lparr>columns := filter (\<lambda>c. c \<in> set (columns df_2da)) (columns df_json0)\<rparr>
      in if empty df_json then Inr (t, df_2da)
         else if name = ''spells''
           then add_spell_labels pop df_2da df_json spell_name_desc_offset t
         else
           (case map_cells (add pop) (cells df_json) (positions (columns df_json) (index df_json)) t of
              Inl e \<Rightarrow> Inl e
            | Inr (t1, g) \<Rightarrow>
                Inr (t1, update df_2da
                           (map_frame Num
                              \<lparr>index = index df_json, columns = columns df_json, cells = g\<rparr>))))"

section \<open>Properties of the string table\<close>

text \<open>
  Claim C1 (occupancy): after any sequence of \<open>add\<close> and \<open>add_id\<close> from the empty table,
  every id up to the greatest allocated one is the id of exactly one entry or a blank, and
  no two entries share an id. The source does not keep this: on the empty table
  \<open>add_id(1, "x")\<close> takes the greatest id to be 0 and fills the blanks from 1, so id 0 is
  neither an entry nor a blank; the next \<open>add("y")\<close> finds no blank, takes the entry count
  1 as the id, and the table holds two entries with id 1.
\<close>

theorem occupancy_duplicate_id:
  "add_id 1 ''x'' init_TLK =
     Inr (\<lparr>language = JInt 0, entries = [(1, ''x'')], existing = [(''x'', 1 + OFFSET)],
           blanks = {}\<rparr>, 1 + OFFSET)
   \<and> add pop ''y'' \<lparr>language = JInt 0, entries = [(1, ''x'')], existing = [(''x'', 1 + OFFSET)],
                      blanks = {}\<rparr> =
     Inr (\<lparr>language = JInt 0, entries = [(1, ''x''), (1, ''y'')],
           existing = [(''x'', 1 + OFFSET), (''y'', 1 + OFFSET)], blanks = {}\<rparr>, 1 + OFFSET)"
  by (simp add: add_id_def add_def add_item_def init_TLK_def len_def getitem_def)

text \<open>
  Claim C2 (reservation ordering): \<open>add_id(id, text)\<close> raises a value error exactly when
  \<open>id\<close> is at most the greatest allocated id. The source tests \<open>max_value and id <= max_value\<close>,
  so with greatest id 0 nothing is raised: after \<open>add("a")\<close> has allocated id 0,
  \<open>add_id(0, "b")\<close> succeeds and a second entry with id 0 is stored. The two examples of
  the claim are as it says: after \<open>add_id(3, "a")\<close>, \<open>add_id(2, "b")\<close> raises and
  \<open>add_id(7, "b")\<close> adds 4, 5 and 6 to the blanks.
\<close>

theorem add_id_accepts_id_zero:
  "add pop ''a'' init_TLK =
     Inr (\<lparr>language = JInt 0, entries = [(0, ''a'')], existing = [(''a'', OFFSET)],
           blanks = {}\<rparr>, OFFSET)
   \<and> add_id 0 ''b'' \<lparr>language = JInt 0, entries = [(0, ''a'')], existing = [(''a'', OFFSET)],
                     blanks = {}\<rparr> =
     Inr (\<lparr>language = JInt 0, entries = [(0, ''a''), (0, ''b'')],
           existing = [(''a'', OFFSET), (''b'', OFFSET)], blanks = {}\<rparr>, OFFSET)
   \<and> add_id 3 ''a'' init_TLK =
     Inr (\<lparr>language = JInt 0, entries = [(3, ''a'')], existing = [(''a'', 3 + OFFSET)],
           blanks = {1, 2}\<rparr>, 3 + OFFSET)
   \<and> add_id 2 ''b'' \<lparr>language = JInt 0, entries = [(3, ''a'')],
                     existing = [(''a'', 3 + OFFSET)], blanks = {1, 2}\<rparr> = Inl ValueError
   \<and> add_id 7 ''b'' \<lparr>language = JInt 0, entries = [(3, ''a'')],
                     existing = [(''a'', 3 + OFFSET)], blanks = {1, 2}\<rparr> =
     Inr (\<lparr>language = JInt 0, entries = [(3, ''a''), (7, ''b'')],
           existing = [(''a'', 3 + OFFSET), (''b'', 7 + OFFSET)],
           blanks = {1, 2} \<union> {4, 5, 6}\<rparr>, 7 + OFFSET)"
  by (auto simp add: add_id_def add_def add_item_def init_TLK_def len_def getitem_def)

text \<open>
  Claim C3 (gap reservation): \<open>add_id(5, "x")\<close> on the empty table puts the ids 0 to 4 into
  the blanks. In the source the blanks are \<open>range(max_value + 1, id)\<close> with \<open>max_value = 0\<close>
  for the empty table: the ids 1 to 4, without 0.
\<close>

theorem add_id_gap_without_zero:
  "add_id 5 ''x'' init_TLK =
     Inr (\<lparr>language = JInt 0, entries = [(5, ''x'')], existing = [(''x'', 5 + OFFSET)],
           blanks = {1, 2, 3, 4}\<rparr>, 5 + OFFSET)"
  by (auto simp add: add_id_def add_item_def init_TLK_def getitem_def)

text \<open>
  Claim C4 (idempotence of \<open>add\<close>): in every state of the table and for every text, \<open>add\<close>
  returns, a second \<open>add\<close> of the same text returns the same id and leaves the table as the
  first call left it, whatever the two calls would take from the blanks; the first call
  adds no entry when the text is cached and exactly one entry otherwise.
\<close>

theorem add_idempotent:
  "\<exists>t1 i. add pop text t = Inr (t1, i) \<and> add pop' text t1 = Inr (t1, i)
     \<and> length (entries t1) \<le> length (entries t) + 1
     \<and> (if map_of (existing t) text \<noteq> None then t1 = t
         else length (entries t1) = length (entries t) + 1)"
  by (auto simp add: add_def add_item_def getitem_def update_conv' Let_def split: option.splits)

lemma update_new_key: "k \<notin> fst ` set al \<Longrightarrow> AList.update k v al = al @ [(k, v)]"
  by (induction al) auto

lemma fold_update_distinct:
  "distinct (map snd es) \<Longrightarrow> snd ` set es \<inter> fst ` set d = {} \<Longrightarrow>
     fold (\<lambda>(i, x) d. AList.update x i d) es d = d @ map (\<lambda>(i, x). (x, i)) es"
proof (induction es arbitrary: d)
  case Nil
  then show ?case by simp
next
  case (Cons e es)
  obtain i x where e: "e = (i, x)" by (cases e)
  from Cons.prems e have new: "x \<notin> fst ` set d" by auto
  from Cons.prems e have "snd ` set es \<inter> fst ` set (d @ [(x, i)]) = {}"
    by (auto simp add: image_iff)
  with Cons.IH [of "d @ [(x, i)]"] Cons.prems(1) e new show ?case
    by (simp add: update_new_key)
qed

lemma py_max_Max:
  assumes "xs \<noteq> []"
  shows "py_max xs = Inr (Max (set xs))"
proof (cases xs)
  case Nil
  with assms show ?thesis by simp
next
  case (Cons a list)
  then show ?thesis using Max.set_eq_fold [of a list] by simp
qed

lemma from_json_entries:
  assumes "es \<noteq> []" and "distinct (map snd es)"
  shows "from_json (Some [(''language'', l), (''entries'', JList es)]) =
     Inr \<lparr>language = l, entries = es, existing = map (\<lambda>(i, x). (x, i)) es,
          blanks = {i. 0 \<le> i \<and> i < Max (fst ` set es) \<and> i \<notin> fst ` set es}\<rparr>"
proof -
  have ex: "fold (\<lambda>(i, x) d. AList.update x i d) es [] = map (\<lambda>(i, x). (x, i)) es"
    using fold_update_distinct [OF assms(2), of "[]"] by simp
  have vals: "snd \<circ> (\<lambda>(i, x). (x, i)) = (fst :: int \<times> string \<Rightarrow> int)"
    by auto
  have mx: "py_max (map fst es) = Inr (Max (fst ` set es))"
    using py_max_Max [of "map fst es"] assms(1) by simp
  have bl: "Set.filter (\<lambda>i. i \<notin> fst ` set es) {0 ..< Max (fst ` set es)}
      = {i. 0 \<le> i \<and> i < Max (fst ` set es) \<and> i \<notin> fst ` set es}"
    by auto
  show ?thesis
    by (simp add: from_json_def getitem_def ex vals mx bl Let_def)
qed

text \<open>
  Claim C5 (round trip): for every table that has entries, with pairwise different texts,
  \<open>from_json\<close> on the object that \<open>to_tlk\<close> dumps returns a table whose entries are the
  entries of the table sorted by id, and whose blanks are rebuilt as the integers from 0
  below the greatest allocated id that are no allocated id. In particular the table with
  the entries \<open>{0: "A", 2: "B"}\<close> and the blanks \<open>{1}\<close> comes back with the same set
  of entries and the same blanks.
\<close>

theorem round_trip:
  assumes "entries t \<noteq> []" and "distinct (map snd (entries t))"
  shows "\<exists>t'. from_json (Some (snd (to_tlk t))) = Inr t'
           \<and> entries t' = sort_key fst (entries t)
           \<and> set (entries t') = set (entries t)
           \<and> blanks t' = {i. 0 \<le> i \<and> i < Max (fst ` set (entries t))
                              \<and> i \<notin> fst ` set (entries t)}
           \<and> (set (entries t) = {(0, ''A''), (2, ''B'')} \<and> blanks t = {1} \<longrightarrow>
                 set (entries t') = {(0, ''A''), (2, ''B'')} \<and> blanks t' = blanks t)"
proof -
  let ?es = "sort_key fst (entries t)"
  have ne: "?es \<noteq> []" using assms(1) by (metis length_sort length_0_conv)
  from assms(2) have di: "distinct (map snd ?es)"
    by (simp add: distinct_map)
  have doc: "snd (to_tlk t) = [(''language'', language t), (''entries'', JList ?es)]"
    by (simp add: to_tlk_def Let_def)
  have inst: "{i::int. 0 \<le> i \<and> i < 2 \<and> i \<noteq> 0 \<and> i \<noteq> 2} = {1}" by auto
  show ?thesis
    unfolding doc from_json_entries [OF ne di]
    by (auto simp add: inst)
qed

theorem round_trip_witness:
  "\<exists>t'. from_json (Some (snd (to_tlk \<lparr>language = JInt 0, entries = [(2, ''B''), (0, ''A'')],
             existing = [(''B'', 2 + OFFSET), (''A'', OFFSET)], blanks = {1}\<rparr>))) = Inr t'
        \<and> entries t' = [(0, ''A''), (2, ''B'')] \<and> blanks t' = {1}"
proof -
  let ?t = "\<lparr>language = JInt 0, entries = [(2, ''B''), (0, ''A'')],
             existing = [(''B'', 2 + OFFSET), (''A'', OFFSET)], blanks = {1}\<rparr>"
  have "entries ?t \<noteq> []" "distinct (map snd (entries ?t))"
    by simp_all
  from round_trip [OF this] show ?thesis by auto
qed

text \<open>
  Claim C6 (offset ids): the id that \<open>add\<close> returns is the table-local id plus OFFSET, also
  for a text that a hydrated table already holds. \<open>from_json\<close> caches the ids of the file
  as they are, without OFFSET, whereas \<open>__add_item__\<close> caches \<open>id + OFFSET\<close>: on the table
  hydrated from the entries \<open>{0: "A", 2: "B"}\<close>, \<open>add("A")\<close> returns 0.
\<close>

theorem hydrated_add_returns_local_id:
  "from_json (Some [(''language'', JInt 0), (''entries'', JList [(0, ''A''), (2, ''B'')])]) =
     Inr \<lparr>language = JInt 0, entries = [(0, ''A''), (2, ''B'')],
          existing = [(''A'', 0), (''B'', 2)], blanks = {1}\<rparr>
   \<and> add pop ''A'' \<lparr>language = JInt 0, entries = [(0, ''A''), (2, ''B'')],
          existing = [(''A'', 0), (''B'', 2)], blanks = {1}\<rparr> =
     Inr (\<lparr>language = JInt 0, entries = [(0, ''A''), (2, ''B'')],
          existing = [(''A'', 0), (''B'', 2)], blanks = {1}\<rparr>, 0)
   \<and> (0::int) \<noteq> 0 + OFFSET"
  by (auto simp add: from_json_def add_def getitem_def OFFSET_def)

section \<open>Properties of the derived labels\<close>

text \<open>
  Claim C7 (pluralization table): "Witch" gives "Witches", "Wife" "Wives", "Elf" "Elves",
  "Class" "Classes", "Dwarf" "Dwarves", "City" "Cities" and "Boy" "Boys". The cases
  \<open>'ch', 'is', 'sh'\<close> and \<open>'s', 'x', 'z', 'o'\<close> of the source are sequence patterns, which
  no string matches, so "Witch" and "Class" fall through to the plain "s"; the other five
  words are as claimed.
\<close>

theorem dynamic_plural_table:
  "dynamic_plural ''Witch'' = Inr ''Witchs'' \<and> dynamic_plural ''Class'' = Inr ''Classs''
   \<and> dynamic_plural ''Wife'' = Inr ''Wives'' \<and> dynamic_plural ''Elf'' = Inr ''Elves''
   \<and> dynamic_plural ''Dwarf'' = Inr ''Dwarves'' \<and> dynamic_plural ''City'' = Inr ''Cities''
   \<and> dynamic_plural ''Boy'' = Inr ''Boys''"
  by (simp add: dynamic_plural_def)

section \<open>Properties of the override label files\<close>

text \<open>
  Claim C10 (duplicate ids): loading keeps the last record of every duplicated id, whether
  or not the warning is suppressed. In the source the removal of the earlier records is in
  the branch that prints the warning: with \<open>silent_warnings\<close> both records with id 1 stay,
  without it only the last one does.
\<close>

theorem read_labels_silent_keeps_duplicates:
  "read_labels quicksort (Records [(1, ''a''), (1, ''b'')]) True =
     Inr (None, [(1, ''a''), (1, ''b'')])
   \<and> read_labels quicksort (Records [(1, ''a''), (1, ''b'')]) False =
     Inr (Some [1], [(1, ''b'')])"
  by (simp add: read_labels_def)

section \<open>Properties of the label merge\<close>

lemma add_entries:
  assumes "add pop x t = Inr (t1, y)"
  shows "entries t1 = entries t \<or> (\<exists>i. entries t1 = entries t @ [(i, x)])"
  using assms
  by (auto simp add: add_def add_item_def getitem_def Let_def split: if_splits option.splits)

lemma add_cached:
  assumes "add pop x t = Inr (t1, y)"
  shows "map_of (existing t1) x = Some y"
  using assms
  by (auto simp add: add_def add_item_def getitem_def Let_def update_conv'
      split: if_splits option.splits)

lemma add_keeps_cache:
  assumes "add pop x t = Inr (t1, y)" and "map_of (existing t) k = Some v"
  shows "map_of (existing t1) k = Some v"
  using assms
  by (auto simp add: add_def add_item_def getitem_def Let_def update_conv'
      split: if_splits option.splits)

lemma add_id_entries:
  assumes "add_id i x t = Inr (t1, y)"
  shows "entries t1 = entries t @ [(i, x)]"
  using assms
  by (auto simp add: add_id_def add_item_def getitem_def Let_def update_conv'
      split: if_splits option.splits sum.splits)

lemma map_cells_dom:
  "map_cells (add pop) src ps t = Inr (t', g) \<Longrightarrow>
     (g p \<noteq> None) = (p \<in> set ps \<and> src p \<noteq> None)"
proof (induction ps arbitrary: t t' g)
  case Nil
  then show ?case by auto
next
  case (Cons q ps)
  show ?case
  proof (cases "src q")
    case None
    with Cons show ?thesis by auto
  next
    case (Some x)
    with Cons.prems obtain t1 y g' where
      "add pop x t = Inr (t1, y)" and rec: "map_cells (add pop) src ps t1 = Inr (t', g')"
      and g: "g = g'(q \<mapsto> y)"
      by (auto split: sum.splits)
    from Cons.IH [OF rec] Some g show ?thesis by auto
  qed
qed

lemma map_cells_entries:
  "map_cells (add pop) src ps t = Inr (t', g) \<Longrightarrow> e \<in> set (entries t') \<Longrightarrow>
     e \<notin> set (entries t) \<Longrightarrow> \<exists>p \<in> set ps. src p = Some (snd e)"
proof (induction ps arbitrary: t t' g)
  case Nil
  then show ?case by simp
next
  case (Cons q ps)
  show ?case
  proof (cases "src q")
    case None
    with Cons show ?thesis by auto
  next
    case (Some x)
    with Cons.prems obtain t1 y g' where
      a: "add pop x t = Inr (t1, y)" and rec: "map_cells (add pop) src ps t1 = Inr (t', g')"
      by (auto split: sum.splits)
    show ?thesis
    proof (cases "e \<in> set (entries t1)")
      case True
      with add_entries [OF a] Cons.prems(3) have "snd e = x" by auto
      with Some show ?thesis by auto
    next
      case False
      from Cons.IH [OF rec Cons.prems(2) False] show ?thesis by auto
    qed
  qed
qed

lemma map_cells_keeps_cache:
  "map_cells (add pop) src ps t = Inr (t', g) \<Longrightarrow> map_of (existing t) k = Some v \<Longrightarrow>
     map_of (existing t') k = Some v"
proof (induction ps arbitrary: t t' g)
  case Nil
  then show ?case by simp
next
  case (Cons q ps)
  show ?case
  proof (cases "src q")
    case None
    with Cons show ?thesis by auto
  next
    case (Some x)
    with Cons.prems obtain t1 y g' where
      a: "add pop x t = Inr (t1, y)" and rec: "map_cells (add pop) src ps t1 = Inr (t', g')"
      by (auto split: sum.splits)
    from Cons.IH [OF rec add_keeps_cache [OF a Cons.prems(2)]] show ?thesis .
  qed
qed

lemma map_cells_cache:
  "map_cells (add pop) src ps t = Inr (t', g) \<Longrightarrow> g p = Some n \<Longrightarrow>
     \<exists>x. src p = Some x \<and> map_of (existing t') x = Some n"
proof (induction ps arbitrary: t t' g)
  case Nil
  then show ?case by auto
next
  case (Cons q ps)
  show ?case
  proof (cases "src q")
    case None
    with Cons show ?thesis by auto
  next
    case (Some x)
    with Cons.prems obtain t1 y g' where
      a: "add pop x t = Inr (t1, y)" and rec: "map_cells (add pop) src ps t1 = Inr (t', g')"
      and g: "g = g'(q \<mapsto> y)"
      by (auto split: sum.splits)
    show ?thesis
    proof (cases "p = q")
      case True
      with g Cons.prems(2) have "n = y" by simp
      with map_cells_keeps_cache [OF rec add_cached [OF a]] Some True show ?thesis by simp
    next
      case False
      with g Cons.prems(2) have "g' p = Some n" by simp
      from Cons.IH [OF rec this] show ?thesis .
    qed
  qed
qed

lemma all_add_id_entries:
  "all_add_id rs t = Inr t' \<Longrightarrow> e \<in> set (entries t') \<Longrightarrow> e \<notin> set (entries t) \<Longrightarrow> e \<in> set rs"
proof (induction rs arbitrary: t)
  case Nil
  then show ?case by simp
next
  case (Cons a rs)
  obtain i x where a: "a = (i, x)" by (cases a)
  with Cons.prems(1) obtain t1 y where
    s: "add_id i x t = Inr (t1, y)" and rec: "(if y = 0 then Inr t1 else all_add_id rs t1) = Inr t'"
    by (auto split: sum.splits)
  show ?case
  proof (cases "e \<in> set (entries t1)")
    case True
    with add_id_entries [OF s] Cons.prems(3) a show ?thesis by auto
  next
    case False
    with rec Cons.prems(2) have "y \<noteq> 0" by (auto split: if_splits)
    with rec Cons.IH [OF _ Cons.prems(2) False] show ?thesis by auto
  qed
qed

lemma set_positions: "set (positions cols rows) = {(r, c). r \<in> set rows \<and> c \<in> set cols}"
  by (auto simp add: positions_def)


lemma df_ids_index: "index (df_ids offset [''Name'', ''SpellDesc''] df_json) = index df_json"
  by (simp add: df_ids_def enumerate_eq_zip upt_rec)

lemma df_ids_columns:
  "columns (df_ids offset [''Name'', ''SpellDesc''] df_json) = [''Name'', ''SpellDesc'']"
  by (simp add: df_ids_def enumerate_eq_zip upt_rec)

lemma df_ids_cells:
  "cells (df_ids offset [''Name'', ''SpellDesc''] df_json) (r, c) =
     (if c = ''SpellDesc''
      then (if cells df_json (r, ''SpellDesc'') \<noteq> None
            then Some (int64 (offset + 1 + int64 (2 * r))) else None)
      else if c = ''Name''
      then (if cells df_json (r, ''Name'') \<noteq> None
            then Some (int64 (offset + 0 + int64 (2 * r))) else None)
      else None)"
  by (simp add: df_ids_def enumerate_eq_zip upt_rec)

lemma reservations_mem:
  "(i, x) \<in> set (reservations static ids df_json) \<Longrightarrow>
     \<exists>r \<in> set (index ids). \<exists>c \<in> set static.
        cells ids (r, c) = Some i \<and> cells df_json (r, c) = Some x"
  by (fastforce simp add: reservations_def split: option.splits)

lemma at_ids_None:
  assumes "at dj p = None" and "set [''Name'', ''SpellDesc''] \<subseteq> set (columns dj)"
  shows "at (map_frame h (df_ids offset [''Name'', ''SpellDesc''] dj)) p = None"
proof (cases p)
  case (Pair r c)
  with assms show ?thesis
    by (auto simp add: at_def map_frame_def df_ids_index df_ids_columns df_ids_cells
        split: if_splits)
qed

lemma at_ids_Some:
  assumes "at dj p \<noteq> None" and "snd p \<in> set [''Name'', ''SpellDesc'']"
  shows "\<exists>n. at (map_frame (\<lambda>i. Num (h i)) (df_ids offset [''Name'', ''SpellDesc''] dj)) p
           = Some (Num n)"
proof (cases p)
  case (Pair r c)
  with assms show ?thesis
    by (auto simp add: at_def map_frame_def df_ids_index df_ids_columns df_ids_cells
        split: if_splits)
qed

lemma add_spell_labels_merge:
  assumes run: "add_spell_labels pop df_2da dj offset t = Inr (t', merged)"
  shows "at dj p = None \<Longrightarrow> cells merged p = cells df_2da p"
    and "cells merged p \<noteq> cells df_2da p \<Longrightarrow> \<exists>n. cells merged p = Some (Num n)"
    and "e \<in> set (entries t') \<Longrightarrow> e \<notin> set (entries t) \<Longrightarrow> \<exists>q. at dj q = Some (snd e)"
    and "e \<in> set (entries t') \<Longrightarrow> e \<notin> set (entries t) \<Longrightarrow>
           (\<exists>q. snd q \<notin> set (STATIC_COLUMNS offset) \<and> at dj q = Some (snd e))
           \<or> e \<in> set (reservations (STATIC_COLUMNS offset)
                        (df_ids offset (STATIC_COLUMNS offset) dj) dj)"
proof -
  define static where "static = STATIC_COLUMNS offset"
  define others where "others = sort (filter (\<lambda>c. c \<notin> set static) (columns dj))"
  define J where "J = (\<lambda>g. \<lparr>index = index dj, columns = columns dj,
      cells = (\<lambda>p. if snd p \<in> set others then map_option Num (g p)
                   else map_option Str (cells dj p))\<rparr>)"
  define ids where "ids = df_ids offset static dj"
  define ids' where "ids' = map_frame (\<lambda>i. Num (i + OFFSET)) ids"
  have eq: "add_spell_labels pop df_2da dj offset t =
    (case map_cells (add pop) (cells dj) (positions others (index dj)) t of
       Inl e \<Rightarrow> Inl e
     | Inr (t1, g) \<Rightarrow>
         if static = [] then Inr (t1, update df_2da (J g))
         else if \<not> (set static \<subseteq> set (columns dj)) then Inl KeyError
         else (case all_add_id (reservations static ids dj) t1 of
                 Inl e \<Rightarrow> Inl e
               | Inr t2 \<Rightarrow> Inr (t2, update (update df_2da (J g)) ids')))"
    unfolding add_spell_labels_def Let_def static_def others_def J_def ids_def ids'_def ..
  have others: "set others = {c \<in> set (columns dj). c \<notin> set static}"
    by (auto simp add: others_def)
  from run obtain t1 g where
    m: "map_cells (add pop) (cells dj) (positions others (index dj)) t = Inr (t1, g)"
    unfolding eq by (auto split: sum.splits)
  define j1 where "j1 = J g"
  define d1 where "d1 = update df_2da j1"
  from run have run': "(if static = [] then Inr (t1, d1)
         else if \<not> (set static \<subseteq> set (columns dj)) then Inl KeyError
         else (case all_add_id (reservations static ids dj) t1 of
                 Inl e \<Rightarrow> Inl e
               | Inr t2 \<Rightarrow> Inr (t2, update d1 ids'))) = Inr (t', merged)"
    unfolding eq m d1_def j1_def by simp
  have dom: "(g q \<noteq> None) = (fst q \<in> set (index dj) \<and> snd q \<in> set others \<and> cells dj q \<noteq> None)"
    for q
    using map_cells_dom [OF m, of q] by (cases q) (simp add: set_positions)
  have j1_None: "at j1 q = None" if "at dj q = None" for q
  proof (cases "g q")
    case None
    with that show ?thesis by (auto simp add: at_def j1_def J_def split: if_splits)
  next
    case (Some n)
    with dom [of q] that show ?thesis by (auto simp add: at_def others split: if_splits)
  qed
  have j1_Some: "(\<exists>n. at j1 q = Some (Num n)) \<or> (snd q \<in> set static \<and> at dj q \<noteq> None)"
    if "at j1 q \<noteq> None" for q
    using that by (auto simp add: at_def j1_def J_def others split: if_splits)
  have d1: "cells d1 q = (if fst q \<in> set (index df_2da) \<and> snd q \<in> set (columns df_2da)
                             \<and> at j1 q \<noteq> None then at j1 q else cells df_2da q)" for q
    by (simp add: d1_def update_def)
  have frame1: "index d1 = index df_2da" "columns d1 = columns df_2da"
    by (simp_all add: d1_def update_def)
  have ent1': "\<exists>q. snd q \<notin> set static \<and> at dj q = Some (snd e)"
    if "e \<in> set (entries t1)" "e \<notin> set (entries t)"
  proof -
    from map_cells_entries [OF m that] obtain q where
      "q \<in> set (positions others (index dj))" "cells dj q = Some (snd e)" by auto
    then have "snd q \<notin> set static \<and> at dj q = Some (snd e)"
      by (auto simp add: set_positions others at_def)
    then show ?thesis ..
  qed
  then have ent1: "\<exists>q. at dj q = Some (snd e)"
    if "e \<in> set (entries t1)" "e \<notin> set (entries t)"
    using that by blast
  have ids_None: "at ids' q = None"
    if "at dj q = None" "static = [''Name'', ''SpellDesc'']" "set static \<subseteq> set (columns dj)" for q
    using at_ids_None [of dj q "\<lambda>i. Num (i + OFFSET)" offset] that
    by (simp add: ids'_def ids_def)
  have ids_Some: "\<exists>n. at ids' q = Some (Num n)"
    if "at dj q \<noteq> None" "snd q \<in> set static" "static = [''Name'', ''SpellDesc'']" for q
    using at_ids_Some [of dj q "\<lambda>i. i + OFFSET" offset] that
    by (simp add: ids'_def ids_def)
  have ids_cols: "at ids' q = None" if "snd q \<notin> set static" "static = [''Name'', ''SpellDesc'']" for q
    using that by (auto simp add: at_def ids'_def ids_def map_frame_def df_ids_columns)
  from run' consider
    (plain) "static = []" "t' = t1" "merged = d1"
  | (reserved) "static = [''Name'', ''SpellDesc'']" "set static \<subseteq> set (columns dj)"
      "all_add_id (reservations static ids dj) t1 = Inr t'" "merged = update d1 ids'"
    by (cases "static = []")
      (auto simp add: static_def STATIC_COLUMNS_def split: if_splits sum.splits)
  note result = this
  have mg: "cells (update d1 ids') q =
      (if fst q \<in> set (index df_2da) \<and> snd q \<in> set (columns df_2da) \<and> at ids' q \<noteq> None
       then at ids' q else cells d1 q)" for q
    by (simp add: update_def frame1)
  show "cells merged p = cells df_2da p" if a: "at dj p = None"
  proof (cases rule: result)
    case plain
    with j1_None [OF a] show ?thesis by (simp add: d1)
  next
    case reserved
    with j1_None [OF a] ids_None [OF a] show ?thesis by (simp add: mg d1)
  qed
  show "\<exists>n. cells merged p = Some (Num n)" if ch: "cells merged p \<noteq> cells df_2da p"
  proof (cases rule: result)
    case plain
    with ch have "at j1 p \<noteq> None" "cells merged p = at j1 p"
      by (auto simp add: d1 split: if_splits)
    with j1_Some [of p] plain show ?thesis by auto
  next
    case reserved
    show ?thesis
    proof (cases "fst p \<in> set (index df_2da) \<and> snd p \<in> set (columns df_2da)")
      case False
      with reserved have "cells merged p = cells df_2da p" by (auto simp add: mg d1)
      with ch show ?thesis by simp
    next
      case inside: True
      have dj: "at dj p \<noteq> None"
      proof
        assume a: "at dj p = None"
        with j1_None [OF a] ids_None [OF a] reserved ch show False by (simp add: mg d1)
      qed
      show ?thesis
      proof (cases "snd p \<in> set static")
        case True
        from ids_Some [OF dj True] reserved inside show ?thesis by (auto simp add: mg)
      next
        case False
        with ids_cols [of p] reserved have "at ids' p = None" by simp
        with ch inside reserved have "at j1 p \<noteq> None" "cells merged p = at j1 p"
          by (auto simp add: mg d1 split: if_splits)
        with j1_Some [of p] False show ?thesis by auto
      qed
    qed
  qed
  show "\<exists>q. at dj q = Some (snd e)" if e: "e \<in> set (entries t')" "e \<notin> set (entries t)"
  proof (cases rule: result)
    case plain
    with ent1 e show ?thesis by simp
  next
    case reserved
    show ?thesis
    proof (cases "e \<in> set (entries t1)")
      case True
      with ent1 e show ?thesis by simp
    next
      case False
      from all_add_id_entries [OF reserved(3) e(1) False]
      have "(fst e, snd e) \<in> set (reservations static ids dj)"
        by simp
      from reservations_mem [OF this] obtain r c where
        "r \<in> set (index ids)" "c \<in> set static" "cells dj (r, c) = Some (snd e)" by auto
      with reserved have "at dj (r, c) = Some (snd e)"
        by (auto simp add: at_def ids_def df_ids_index)
      then show ?thesis ..
    qed
  qed
  show "(\<exists>q. snd q \<notin> set (STATIC_COLUMNS offset) \<and> at dj q = Some (snd e))
          \<or> e \<in> set (reservations (STATIC_COLUMNS offset)
                       (df_ids offset (STATIC_COLUMNS offset) dj) dj)"
    if e: "e \<in> set (entries t')" "e \<notin> set (entries t)"
  proof (cases rule: result)
    case plain
    with ent1' e show ?thesis by (simp add: static_def)
  next
    case reserved
    show ?thesis
    proof (cases "e \<in> set (entries t1)")
      case True
      with ent1' e show ?thesis by (simp add: static_def)
    next
      case False
      from all_add_id_entries [OF reserved(3) e(1) False] show ?thesis
        by (simp add: static_def ids_def)
    qed
  qed
qed

lemma int64_fits: "- (2 ^ 63) \<le> x \<Longrightarrow> x < 2 ^ 63 \<Longrightarrow> int64 x = x"
  by (simp add: int64_def)

lemma add_id_result:
  assumes "add_id i x t = Inr (t1, y)"
  shows "y = i + OFFSET"
  using assms
  by (auto simp add: add_id_def add_item_def getitem_def Let_def update_conv'
      split: if_splits option.splits sum.splits)

lemma all_add_id_append:
  "all_add_id rs t = Inr t' \<Longrightarrow> \<forall>e \<in> set rs. fst e + OFFSET \<noteq> 0 \<Longrightarrow>
     entries t' = entries t @ rs"
proof (induction rs arbitrary: t)
  case Nil
  then show ?case by simp
next
  case (Cons a rs)
  obtain i x where a: "a = (i, x)" by (cases a)
  with Cons.prems(1) obtain t1 y where
    s: "add_id i x t = Inr (t1, y)" and rec: "(if y = 0 then Inr t1 else all_add_id rs t1) = Inr t'"
    by (auto split: sum.splits)
  from add_id_result [OF s] Cons.prems(2) a have "y \<noteq> 0" by simp
  with rec have "all_add_id rs t1 = Inr t'" by simp
  from Cons.IH [OF this] Cons.prems(2) add_id_entries [OF s] a show ?case by simp
qed

lemma reservations_intro:
  assumes "r \<in> set (index ids)" and "c \<in> set static"
    and "cells ids (r, c) = Some n" and "cells df_json (r, c) = Some s"
  shows "(n, s) \<in> set (reservations static ids df_json)"
  using assms by (force simp add: reservations_def)


lemma add_spell_labels_reserved:
  assumes run: "add_spell_labels pop df_2da dj offset t = Inr (t', merged)"
    and pos: "0 < offset"
    and nz: "\<forall>e \<in> set (reservations [''Name'', ''SpellDesc'']
                        (df_ids offset [''Name'', ''SpellDesc''] dj) dj). fst e + OFFSET \<noteq> 0"
  shows "set (reservations [''Name'', ''SpellDesc'']
            (df_ids offset [''Name'', ''SpellDesc''] dj) dj) \<subseteq> set (entries t')"
    and "fst p \<in> set (index df_2da) \<Longrightarrow> snd p \<in> set (columns df_2da) \<Longrightarrow>
         at (map_frame (\<lambda>i. Num (i + OFFSET)) (df_ids offset [''Name'', ''SpellDesc''] dj)) p
           \<noteq> None \<Longrightarrow>
         cells merged p =
           at (map_frame (\<lambda>i. Num (i + OFFSET)) (df_ids offset [''Name'', ''SpellDesc''] dj)) p"
proof -
  define static where "static = STATIC_COLUMNS offset"
  define others where "others = sort (filter (\<lambda>c. c \<notin> set static) (columns dj))"
  define J where "J = (\<lambda>g. \<lparr>index = index dj, columns = columns dj,
      cells = (\<lambda>p. if snd p \<in> set others then map_option Num (g p)
                   else map_option Str (cells dj p))\<rparr>)"
  define ids where "ids = df_ids offset static dj"
  define ids' where "ids' = map_frame (\<lambda>i. Num (i + OFFSET)) ids"
  have st: "static = [''Name'', ''SpellDesc'']"
    using pos by (simp add: static_def STATIC_COLUMNS_def)
  have eq: "add_spell_labels pop df_2da dj offset t =
    (case map_cells (add pop) (cells dj) (positions others (index dj)) t of
       Inl e \<Rightarrow> Inl e
     | Inr (t1, g) \<Rightarrow>
         if static = [] then Inr (t1, update df_2da (J g))
         else if \<not> (set static \<subseteq> set (columns dj)) then Inl KeyError
         else (case all_add_id (reservations static ids dj) t1 of
                 Inl e \<Rightarrow> Inl e
               | Inr t2 \<Rightarrow> Inr (t2, update (update df_2da (J g)) ids')))"
    unfolding add_spell_labels_def Let_def static_def others_def J_def ids_def ids'_def ..
  from run obtain t1 g where
    m: "map_cells (add pop) (cells dj) (positions others (index dj)) t = Inr (t1, g)"
    unfolding eq by (auto split: sum.splits)
  from run have r: "all_add_id (reservations static ids dj) t1 = Inr t'"
    and res: "merged = update (update df_2da (J g)) ids'"
    unfolding eq m by (auto simp add: st split: if_splits sum.splits)
  from all_add_id_append [OF r] nz have "entries t' = entries t1 @ reservations static ids dj"
    by (simp add: ids_def st)
  then show "set (reservations [''Name'', ''SpellDesc'']
            (df_ids offset [''Name'', ''SpellDesc''] dj) dj) \<subseteq> set (entries t')"
    by (simp add: ids_def st)
  show "cells merged p =
           at (map_frame (\<lambda>i. Num (i + OFFSET)) (df_ids offset [''Name'', ''SpellDesc''] dj)) p"
    if "fst p \<in> set (index df_2da)" "snd p \<in> set (columns df_2da)"
      "at (map_frame (\<lambda>i. Num (i + OFFSET)) (df_ids offset [''Name'', ''SpellDesc''] dj)) p
           \<noteq> None"
    using that by (simp add: res update_def ids'_def ids_def st)
qed

text \<open>
  Claim C8 (static id assignment), amended. For row labels that are not negative, and as
  long as \<open>offset + i + (number of static columns) * r + OFFSET\<close> stays below \<open>2 ^ 63\<close>:
  the id in the frame of static ids for the \<open>i\<close>-th static column (counted from 0) at
  row \<open>r\<close> is \<open>offset + i + (number of static columns) * r\<close> where the override cell is
  not missing, and is missing where that cell is; every \<open>add_id\<close> call of
  \<open>add_spell_labels\<close> gets such an id together with the text of a cell that is not
  missing; when \<open>add_spell_labels\<close> returns, the string table has the entry with that id
  and text for every static override cell that is not missing, and the cell of the category
  table, where the table has that row and column, holds the id plus OFFSET; and every
  entry that \<open>add_spell_labels\<close> adds is either the text of a cell outside the static
  columns or one of these reservations. With offset 5000 the ids of rows 0 and 1 are 5000,
  5001, 5002 and 5003.
\<close>

theorem static_id_assignment:
  assumes fits: "\<forall>r \<in> set (index df_json). \<forall>i < length (STATIC_COLUMNS offset).
      0 \<le> r \<and> offset + int i + int (length (STATIC_COLUMNS offset)) * r + OFFSET < 2 ^ 63"
  shows
   "(\<forall>r \<in> set (index df_json). \<forall>i < length (STATIC_COLUMNS offset).
      cells (df_ids offset (STATIC_COLUMNS offset) df_json) (r, STATIC_COLUMNS offset ! i) =
        (if cells df_json (r, STATIC_COLUMNS offset ! i) = None then None
         else Some (offset + int i + int (length (STATIC_COLUMNS offset)) * r)))
   \<and> (\<forall>(n, s) \<in> set (reservations (STATIC_COLUMNS offset)
                            (df_ids offset (STATIC_COLUMNS offset) df_json) df_json).
        \<exists>r \<in> set (index df_json). \<exists>i < length (STATIC_COLUMNS offset).
          cells df_json (r, STATIC_COLUMNS offset ! i) = Some s
          \<and> n = offset + int i + int (length (STATIC_COLUMNS offset)) * r)
   \<and> (\<forall>t' merged. add_spell_labels pop df_2da df_json offset t = Inr (t', merged) \<longrightarrow>
        (\<forall>r \<in> set (index df_json). \<forall>i < length (STATIC_COLUMNS offset). \<forall>s.
           cells df_json (r, STATIC_COLUMNS offset ! i) = Some s \<longrightarrow>
             (offset + int i + int (length (STATIC_COLUMNS offset)) * r, s) \<in> set (entries t')
             \<and> (r \<in> set (index df_2da) \<and> STATIC_COLUMNS offset ! i \<in> set (columns df_2da) \<longrightarrow>
                  cells merged (r, STATIC_COLUMNS offset ! i) =
                    Some (Num (offset + int i + int (length (STATIC_COLUMNS offset)) * r
                               + OFFSET))))
        \<and> (\<forall>e \<in> set (entries t') - set (entries t).
             (\<exists>q. snd q \<notin> set (STATIC_COLUMNS offset) \<and> at df_json q = Some (snd e))
             \<or> e \<in> set (reservations (STATIC_COLUMNS offset)
                          (df_ids offset (STATIC_COLUMNS offset) df_json) df_json)))"
proof (cases "0 < offset")
  case False
  then have st: "STATIC_COLUMNS offset = []" by (simp add: STATIC_COLUMNS_def)
  have "(\<exists>q. at df_json q = Some (snd e))
           \<or> e \<in> set (reservations [] (df_ids offset [] df_json) df_json)"
    if "add_spell_labels pop df_2da df_json offset t = Inr (t', merged)"
      "e \<in> set (entries t') - set (entries t)" for t' merged e
    using add_spell_labels_merge(4) [OF that(1), of e] that(2) by (auto simp add: st)
  then show ?thesis by (simp add: st reservations_def)
next
  case pos: True
  let ?S = "[''Name'', ''SpellDesc'']"
  let ?ids = "df_ids offset ?S df_json"
  have st: "STATIC_COLUMNS offset = ?S"
    using pos by (simp add: STATIC_COLUMNS_def)
  have OFFSET_pos: "0 < OFFSET" by (simp add: OFFSET_def)
  from fits have range: "0 \<le> r \<and> offset + 1 + 2 * r + OFFSET < 2 ^ 63"
    if "r \<in> set (index df_json)" for r
  proof -
    from fits that have "\<forall>i < length ?S. 0 \<le> r \<and> offset + int i + int (length ?S) * r + OFFSET < 2 ^ 63"
      by (simp add: st)
    from this [THEN spec, of 1] show ?thesis by simp
  qed
  have w0: "int64 (offset + 0 + int64 (2 * r)) = offset + 0 + 2 * r"
    and w1: "int64 (offset + 1 + int64 (2 * r)) = offset + 1 + 2 * r"
    if "r \<in> set (index df_json)" for r
    using range [OF that] pos OFFSET_pos by (simp_all add: int64_fits)
  have cell: "cells ?ids (r, ?S ! i) =
        (if cells df_json (r, ?S ! i) = None then None else Some (offset + int i + 2 * r))"
    if "r \<in> set (index df_json)" "i < 2" for r i
    using that w0 [of r] w1 [of r] by (auto simp add: df_ids_cells less_Suc_eq numeral_2_eq_2)
  have a: "\<forall>r \<in> set (index df_json). \<forall>i < length ?S.
      cells ?ids (r, ?S ! i) =
        (if cells df_json (r, ?S ! i) = None then None
         else Some (offset + int i + int (length ?S) * r))"
    using cell by simp
  have b: "\<exists>r \<in> set (index df_json). \<exists>i < length ?S.
          cells df_json (r, ?S ! i) = Some s \<and> n = offset + int i + int (length ?S) * r"
    if mem: "(n, s) \<in> set (reservations ?S ?ids df_json)" for n s
  proof -
    from reservations_mem [OF mem] obtain r c where
      r: "r \<in> set (index df_json)" and c: "c = ''Name'' \<or> c = ''SpellDesc''"
      and n: "cells ?ids (r, c) = Some n" and x: "cells df_json (r, c) = Some s"
      by (auto simp add: df_ids_index)
    from c show ?thesis
    proof
      assume "c = ''Name''"
      with n x r cell [of r 0] show ?thesis
        by (intro bexI [of _ r] exI [of _ 0]) auto
    next
      assume "c = ''SpellDesc''"
      with n x r cell [of r 1] show ?thesis
        by (intro bexI [of _ r] exI [of _ 1]) auto
    qed
  qed
  have nz: "\<forall>e \<in> set (reservations ?S ?ids df_json). fst e + OFFSET \<noteq> 0"
  proof
    fix e assume "e \<in> set (reservations ?S ?ids df_json)"
    then have "(fst e, snd e) \<in> set (reservations ?S ?ids df_json)" by simp
    from b [OF this] obtain r i where "r \<in> set (index df_json)"
      "fst e = offset + int i + int (length ?S) * r" by auto
    with range [of r] pos OFFSET_pos show "fst e + OFFSET \<noteq> 0" by simp
  qed
  have c: "(offset + int i + int (length ?S) * r, s) \<in> set (entries t')
            \<and> (r \<in> set (index df_2da) \<and> ?S ! i \<in> set (columns df_2da) \<longrightarrow>
                 cells merged (r, ?S ! i) = Some (Num (offset + int i + int (length ?S) * r + OFFSET)))"
    if run: "add_spell_labels pop df_2da df_json offset t = Inr (t', merged)"
      and r: "r \<in> set (index df_json)" and i: "i < length ?S"
      and s: "cells df_json (r, ?S ! i) = Some s" for t' merged r i s
  proof -
    from i have i2: "i < 2" by simp
    then have col: "?S ! i \<in> set ?S" by (auto simp add: less_Suc_eq numeral_2_eq_2)
    from cell [OF r i2] s have id: "cells ?ids (r, ?S ! i) = Some (offset + int i + 2 * r)"
      by simp
    from reservations_intro [of r ?ids "?S ! i" ?S _ df_json s] r col id s
    have "(offset + int i + 2 * r, s) \<in> set (reservations ?S ?ids df_json)"
      by (simp add: df_ids_index)
    with add_spell_labels_reserved(1) [OF run pos nz]
    have ent: "(offset + int i + 2 * r, s) \<in> set (entries t')" by auto
    have at_ids: "at (map_frame (\<lambda>i. Num (i + OFFSET)) ?ids) (r, ?S ! i)
        = Some (Num (offset + int i + 2 * r + OFFSET))"
      using r col id by (simp add: at_def map_frame_def df_ids_index df_ids_columns)
    have "cells merged (r, ?S ! i) = Some (Num (offset + int i + 2 * r + OFFSET))"
      if "r \<in> set (index df_2da)" "?S ! i \<in> set (columns df_2da)"
      using add_spell_labels_reserved(2) [OF run pos nz, of "(r, ?S ! i)"] that at_ids by simp
    with ent show ?thesis by simp
  qed
  have d: "(\<exists>q. snd q \<notin> set ?S \<and> at df_json q = Some (snd e))
           \<or> e \<in> set (reservations ?S ?ids df_json)"
    if "add_spell_labels pop df_2da df_json offset t = Inr (t', merged)"
      "e \<in> set (entries t') - set (entries t)" for t' merged e
    using add_spell_labels_merge(4) [OF that(1), of e] that(2) by (simp add: st)
  show ?thesis
    unfolding st using a b c d by blast
qed

theorem static_id_assignment_witness:
  "\<exists>t' merged.
     add_spell_labels (\<lambda>S. 0)
       \<lparr>index = [0, 1, 2], columns = [''Label'', ''Name'', ''SpellDesc''],
        cells = [(0, ''Name'') \<mapsto> Str ''****'', (0, ''SpellDesc'') \<mapsto> Str ''****'',
                 (1, ''Name'') \<mapsto> Str ''****'', (1, ''SpellDesc'') \<mapsto> Str ''****'',
                 (2, ''Name'') \<mapsto> Str ''****'', (2, ''SpellDesc'') \<mapsto> Str ''****'']\<rparr>
       \<lparr>index = [0, 1, 2], columns = [''Name'', ''SpellDesc''],
        cells = [(0, ''Name'') \<mapsto> ''Acid Fog'', (0, ''SpellDesc'') \<mapsto> ''A fog.'',
                 (1, ''Name'') \<mapsto> ''Aid'', (1, ''SpellDesc'') \<mapsto> ''Helps.'',
                 (2, ''Name'') \<mapsto> ''Animate Dead'']\<rparr>
       5000 init_TLK = Inr (t', merged)
     \<and> (5000, ''Acid Fog'') \<in> set (entries t') \<and> (5001, ''A fog.'') \<in> set (entries t')
     \<and> (5002, ''Aid'') \<in> set (entries t') \<and> (5003, ''Helps.'') \<in> set (entries t')
     \<and> cells merged (0, ''Name'') = Some (Num (5000 + OFFSET))
     \<and> cells merged (0, ''SpellDesc'') = Some (Num (5001 + OFFSET))
     \<and> cells merged (1, ''Name'') = Some (Num (5002 + OFFSET))
     \<and> cells merged (1, ''SpellDesc'') = Some (Num (5003 + OFFSET))
     \<and> cells (df_ids 5000 (STATIC_COLUMNS 5000)
          \<lparr>index = [0, 1, 2], columns = [''Name'', ''SpellDesc''],
           cells = [(0, ''Name'') \<mapsto> ''Acid Fog'', (0, ''SpellDesc'') \<mapsto> ''A fog.'',
                    (1, ''Name'') \<mapsto> ''Aid'', (1, ''SpellDesc'') \<mapsto> ''Helps.'',
                    (2, ''Name'') \<mapsto> ''Animate Dead'']\<rparr>) (2, ''SpellDesc'') = None"
proof -
  let ?d = "\<lparr>index = [0, 1, 2], columns = [''Label'', ''Name'', ''SpellDesc''],
        cells = [(0::int, ''Name'') \<mapsto> Str ''****'', (0, ''SpellDesc'') \<mapsto> Str ''****'',
                 (1, ''Name'') \<mapsto> Str ''****'', (1, ''SpellDesc'') \<mapsto> Str ''****'',
                 (2, ''Name'') \<mapsto> Str ''****'', (2, ''SpellDesc'') \<mapsto> Str ''****'']\<rparr>"
  let ?j = "\<lparr>index = [0, 1, 2], columns = [''Name'', ''SpellDesc''],
        cells = [(0::int, ''Name'') \<mapsto> ''Acid Fog'', (0, ''SpellDesc'') \<mapsto> ''A fog.'',
                 (1, ''Name'') \<mapsto> ''Aid'', (1, ''SpellDesc'') \<mapsto> ''Helps.'',
                 (2, ''Name'') \<mapsto> ''Animate Dead'']\<rparr>"
  have st: "STATIC_COLUMNS 5000 = [''Name'', ''SpellDesc'']"
    by (simp add: STATIC_COLUMNS_def)
  have fits: "\<forall>r \<in> set (index ?j). \<forall>i < length (STATIC_COLUMNS 5000).
      0 \<le> r \<and> 5000 + int i + int (length (STATIC_COLUMNS 5000)) * r + OFFSET < 2 ^ 63"
    by (auto simp add: st OFFSET_def)
  have "\<exists>t' merged. add_spell_labels (\<lambda>S. 0) ?d ?j 5000 init_TLK = Inr (t', merged)"
    by (simp add: add_spell_labels_def st positions_def reservations_def
        df_ids_index df_ids_cells add_id_def add_item_def getitem_def init_TLK_def int64_def
        OFFSET_def Let_def)
  then obtain t' merged where
    run: "add_spell_labels (\<lambda>S. 0) ?d ?j 5000 init_TLK = Inr (t', merged)"
    by blast
  note formula = static_id_assignment [OF fits, of "\<lambda>S. 0" ?d init_TLK]
  note ids = formula [THEN conjunct1, rule_format]
  note reserved = formula [THEN conjunct2, THEN conjunct2, rule_format, OF run, THEN conjunct1,
      rule_format]
  have "(5000, ''Acid Fog'') \<in> set (entries t')
      \<and> cells merged (0, ''Name'') = Some (Num (5000 + OFFSET))"
    using reserved [of 0 0 "''Acid Fog''"] by (simp add: st)
  moreover have "(5001, ''A fog.'') \<in> set (entries t')
      \<and> cells merged (0, ''SpellDesc'') = Some (Num (5001 + OFFSET))"
    using reserved [of 0 1 "''A fog.''"] by (simp add: st)
  moreover have "(5002, ''Aid'') \<in> set (entries t')
      \<and> cells merged (1, ''Name'') = Some (Num (5002 + OFFSET))"
    using reserved [of 1 0 "''Aid''"] by (simp add: st)
  moreover have "(5003, ''Helps.'') \<in> set (entries t')
      \<and> cells merged (1, ''SpellDesc'') = Some (Num (5003 + OFFSET))"
    using reserved [of 1 1 "''Helps.''"] by (simp add: st)
  moreover have "cells (df_ids 5000 (STATIC_COLUMNS 5000) ?j) (2, ''SpellDesc'') = None"
    using ids [of 2 1] by (simp add: st)
  ultimately show ?thesis using run by blast
qed

text \<open>
  Claim C8 as it is stated, for every row, fails where the id leaves the 64-bit range of
  the row labels: at row \<open>2 ^ 62\<close> with offset 5000 the id of the first static column
  is \<open>5000 - 2 ^ 63\<close>, this is the id that \<open>add_spell_labels\<close> reserves, and it is not
  \<open>5000 + 0 + 2 * 2 ^ 62\<close>.
\<close>

theorem static_id_wraps_counterexample:
  "cells (df_ids 5000 (STATIC_COLUMNS 5000)
           \<lparr>index = [4611686018427387904], columns = [''Name'', ''SpellDesc''],
            cells = [(4611686018427387904, ''Name'') \<mapsto> ''x'']\<rparr>)
     (4611686018427387904, STATIC_COLUMNS 5000 ! 0) = Some (- 9223372036854770808)
   \<and> reservations (STATIC_COLUMNS 5000)
        (df_ids 5000 (STATIC_COLUMNS 5000)
           \<lparr>index = [4611686018427387904], columns = [''Name'', ''SpellDesc''],
            cells = [(4611686018427387904, ''Name'') \<mapsto> ''x'']\<rparr>)
        \<lparr>index = [4611686018427387904], columns = [''Name'', ''SpellDesc''],
         cells = [(4611686018427387904, ''Name'') \<mapsto> ''x'']\<rparr>
      = [(- 9223372036854770808, ''x'')]
   \<and> map_sum id (entries \<circ> fst)
        (add_spell_labels Min
           \<lparr>index = [4611686018427387904], columns = [''Name'', ''SpellDesc''],
            cells = Map.empty\<rparr>
           \<lparr>index = [4611686018427387904], columns = [''Name'', ''SpellDesc''],
            cells = [(4611686018427387904, ''Name'') \<mapsto> ''x'']\<rparr>
           5000 init_TLK)
      = Inr [(- 9223372036854770808, ''x'')]
   \<and> (- 9223372036854770808 :: int)
        \<noteq> 5000 + int 0 + int (length (STATIC_COLUMNS 5000)) * 4611686018427387904"
  by (simp add: STATIC_COLUMNS_def reservations_def df_ids_index df_ids_cells int64_def
      add_spell_labels_def positions_def add_id_def add_item_def getitem_def init_TLK_def
      OFFSET_def Let_def)

lemma getitem_Some: "map_of d k = Some v \<Longrightarrow> getitem d k = Inr v"
  by (simp add: getitem_def)

text \<open>
  Claim C9 (missing values in the merge): an override cell is missing when it holds the
  missing value of the frame (NaN, a null of the file), which is what \<open>na_action='ignore'\<close>,
  \<open>notna\<close> and \<open>update\<close> test. When \<open>add_2da_labels\<close> returns, every cell of the
  category table whose override cell is missing (or absent from the override table) has
  its original value; the text of every entry added to the string table is the value of an
  override cell that is not missing; a cell that has changed holds a reference; and
  outside of \<open>spells\<close>, every cell of the category table whose override cell is not
  missing holds the id that the string table caches for that text.
\<close>

theorem missing_value_propagation:
  assumes run: "add_2da_labels pop name df_2da df_json offset t = Inr (t', merged)"
  shows "(\<forall>p. at df_json p = None \<longrightarrow> cells merged p = cells df_2da p)
       \<and> (\<forall>e \<in> set (entries t') - set (entries t). \<exists>p. at df_json p = Some (snd e))
       \<and> (\<forall>p. cells merged p \<noteq> cells df_2da p \<longrightarrow> (\<exists>n. cells merged p = Some (Num n)))
       \<and> (name \<noteq> ''spells'' \<longrightarrow>
            (\<forall>p x. at df_json p = Some x \<and> fst p \<in> set (index df_2da)
                     \<and> snd p \<in> set (columns df_2da) \<longrightarrow>
                   (\<exists>n. cells merged p = Some (Num n) \<and> getitem (existing t') x = Inr n)))"
proof -
  define dj where
    "dj = df_json\<lparr>columns := filter (\<lambda>c. c \<in> set (columns df_2da)) (columns df_json)\<rparr>"
  define G where "G = (\<lambda>g. map_frame Num \<lparr>index = index dj, columns = columns dj, cells = g\<rparr>)"
  have eq: "add_2da_labels pop name df_2da df_json offset t =
    (if empty dj then Inr (t, df_2da)
     else if name = ''spells'' then add_spell_labels pop df_2da dj offset t
     else (case map_cells (add pop) (cells dj) (positions (columns dj) (index dj)) t of
             Inl e \<Rightarrow> Inl e
           | Inr (t1, g) \<Rightarrow> Inr (t1, update df_2da (G g))))"
    unfolding add_2da_labels_def Let_def dj_def G_def ..
  have at_dj: "at dj q = (if snd q \<in> set (columns df_2da) then at df_json q else None)" for q
    by (auto simp add: at_def dj_def)
  from run consider
    (untouched) "empty dj" "t' = t" "merged = df_2da"
  | (spells) "name = ''spells''" "add_spell_labels pop df_2da dj offset t = Inr (t', merged)"
  | (general) g where "\<not> empty dj" "name \<noteq> ''spells''"
      "map_cells (add pop) (cells dj) (positions (columns dj) (index dj)) t = Inr (t', g)"
      "merged = update df_2da (G g)"
    unfolding eq by (auto split: if_splits sum.splits)
  then show ?thesis
  proof cases
    case untouched
    have "at df_json p \<noteq> Some x" if "snd p \<in> set (columns df_2da)" for p x
      using untouched(1) that by (auto simp add: empty_def at_def dj_def filter_empty_conv)
    with untouched show ?thesis by auto
  next
    case spells
    note m = add_spell_labels_merge [OF spells(2)]
    have "\<forall>p. at df_json p = None \<longrightarrow> cells merged p = cells df_2da p"
      using m(1) by (simp add: at_dj)
    moreover have "\<forall>e \<in> set (entries t') - set (entries t). \<exists>p. at df_json p = Some (snd e)"
    proof
      fix e assume "e \<in> set (entries t') - set (entries t)"
      with m(3) [of e] obtain q where "at dj q = Some (snd e)" by auto
      then have "at df_json q = Some (snd e)" by (simp add: at_dj split: if_splits)
      then show "\<exists>p. at df_json p = Some (snd e)" ..
    qed
    moreover have "\<forall>p. cells merged p \<noteq> cells df_2da p \<longrightarrow> (\<exists>n. cells merged p = Some (Num n))"
      using m(2) by simp
    ultimately show ?thesis using spells(1) by simp
  next
    case general
    note m = general(3)
    have dom: "(g q \<noteq> None) = (at dj q \<noteq> None)" for q
      using map_cells_dom [OF m, of q] by (cases q) (auto simp add: set_positions at_def)
    have at_G: "at (G g) q = map_option Num (g q)" for q
      using dom [of q] by (auto simp add: G_def map_frame_def at_def)
    have mg: "cells merged q = (if fst q \<in> set (index df_2da) \<and> snd q \<in> set (columns df_2da)
                                  \<and> g q \<noteq> None then map_option Num (g q) else cells df_2da q)" for q
      by (auto simp add: general(4) update_def at_G)
    have "\<forall>p. at df_json p = None \<longrightarrow> cells merged p = cells df_2da p"
    proof (intro allI impI)
      fix p assume "at df_json p = None"
      then have "at dj p = None" by (simp add: at_dj)
      with dom [of p] have "g p = None" by simp
      then show "cells merged p = cells df_2da p" by (simp add: mg)
    qed
    moreover have "\<forall>e \<in> set (entries t') - set (entries t). \<exists>p. at df_json p = Some (snd e)"
    proof
      fix e assume "e \<in> set (entries t') - set (entries t)"
      with map_cells_entries [OF m, of e] obtain q where
        "q \<in> set (positions (columns dj) (index dj))" "cells dj q = Some (snd e)" by auto
      then have "at df_json q = Some (snd e)"
        by (auto simp add: set_positions at_def dj_def)
      then show "\<exists>p. at df_json p = Some (snd e)" ..
    qed
    moreover have "\<forall>p. cells merged p \<noteq> cells df_2da p \<longrightarrow> (\<exists>n. cells merged p = Some (Num n))"
      by (auto simp add: mg split: if_splits)
    moreover have "\<exists>n. cells merged p = Some (Num n) \<and> getitem (existing t') x = Inr n"
      if "at df_json p = Some x" "fst p \<in> set (index df_2da)" "snd p \<in> set (columns df_2da)"
      for p x
    proof -
      from that have d: "at dj p = Some x" by (simp add: at_dj)
      with dom [of p] obtain n where n: "g p = Some n" by auto
      from map_cells_cache [OF m n] obtain y where
        "cells dj p = Some y" "map_of (existing t') y = Some n" by auto
      with d have "getitem (existing t') x = Inr n"
        by (auto simp add: at_def getitem_Some split: if_splits)
      with n that show ?thesis by (auto simp add: mg)
    qed
    ultimately show ?thesis by blast
  qed
qed

theorem missing_value_propagation_witness:
  "\<exists>t' merged.
     add_2da_labels (\<lambda>S. 0) ''feat''
       \<lparr>index = [0, 1], columns = [''LABEL'', ''Name''],
        cells = [(0, ''LABEL'') \<mapsto> Str ''Alertness'', (0, ''Name'') \<mapsto> Str ''****'',
                 (1, ''LABEL'') \<mapsto> Str ''Ambidex'', (1, ''Name'') \<mapsto> Str ''****'']\<rparr>
       \<lparr>index = [0, 1], columns = [''Name''], cells = [(0, ''Name'') \<mapsto> ''Alertness'']\<rparr>
       5000 init_TLK = Inr (t', merged)
     \<and> entries t' = [(0, ''Alertness'')]
     \<and> cells merged (0, ''Name'') = Some (Num OFFSET)
     \<and> cells merged (1, ''Name'') = Some (Str ''****'')"
proof -
  let ?d = "\<lparr>index = [0, 1], columns = [''LABEL'', ''Name''],
        cells = [(0, ''LABEL'') \<mapsto> Str ''Alertness'', (0, ''Name'') \<mapsto> Str ''****'',
                 (1, ''LABEL'') \<mapsto> Str ''Ambidex'', (1, ''Name'') \<mapsto> Str ''****'']\<rparr>"
  let ?j = "\<lparr>index = [0, 1], columns = [''Name''], cells = [(0::int, ''Name'') \<mapsto> ''Alertness'']\<rparr>"
  let ?t = "\<lparr>language = JInt 0, entries = [(0, ''Alertness'')],
            existing = [(''Alertness'', OFFSET)], blanks = {}\<rparr>"
  let ?m = "update ?d (map_frame Num \<lparr>index = [0, 1], columns = [''Name''],
                                      cells = [(0, ''Name'') \<mapsto> OFFSET]\<rparr>)"
  have run: "add_2da_labels (\<lambda>S. 0) ''feat'' ?d ?j 5000 init_TLK = Inr (?t, ?m)"
    by (simp add: add_2da_labels_def empty_def positions_def add_def add_item_def getitem_def
        init_TLK_def len_def)
  from missing_value_propagation [OF run]
  have keep: "at ?j (1, ''Name'') = None \<longrightarrow> cells ?m (1, ''Name'') = cells ?d (1, ''Name'')"
    and repl: "at ?j (0, ''Name'') = Some ''Alertness'' \<and> fst (0::int, ''Name'') \<in> set (index ?d)
                 \<and> snd (0::int, ''Name'') \<in> set (columns ?d) \<longrightarrow>
               (\<exists>n. cells ?m (0, ''Name'') = Some (Num n) \<and> getitem (existing ?t) ''Alertness'' = Inr n)"
    by blast+
  from keep have "cells ?m (1, ''Name'') = Some (Str ''****'')" by (simp add: at_def)
  moreover from repl have "cells ?m (0, ''Name'') = Some (Num OFFSET)"
    by (auto simp add: at_def getitem_def)
  ultimately show ?thesis using run by simp
qed

end
